theory Spec2Isabelle
  imports Main "HOL-Library.Multiset"
begin

section \<open>Request values\<close>

text \<open>
  The fields of a parsed JSON request body, as \<^verbatim>\<open>express.json()\<close> hands them to a handler.
  \<open>JUndefined\<close> is what destructuring gives for a field that the body does not have.
  \<open>JNum\<close> stands for a JSON number with an integer value; arrays and objects are outside the
  model.
\<close>

datatype jsval = JUndefined | JNull | JBool bool | JNum int | JStr string

text \<open>JavaScript's truthiness, the test behind \<^verbatim>\<open>!task\<close>.\<close>

fun truthy :: "jsval \<Rightarrow> bool" where
  "truthy JUndefined = False"
| "truthy JNull = False"
| "truthy (JBool b) = b"
| "truthy (JNum n) = (n \<noteq> 0)"
| "truthy (JStr s) = (s \<noteq> [])"

text \<open>\<^verbatim>\<open>const { task, status } = req.body\<close>\<close>

record req_body =
  body_task :: jsval
  body_status :: jsval

section \<open>The table \<^verbatim>\<open>todos\<close>\<close>

text \<open>
  The schema of \<^verbatim>\<open>initSql\<close> (server.js, lines 43 to 48):
  \<^verbatim>\<open>id INT AUTO_INCREMENT PRIMARY KEY\<close>,
  \<^verbatim>\<open>task VARCHAR(255) NOT NULL\<close>,
  \<^verbatim>\<open>status ENUM('active', 'completed') DEFAULT 'active'\<close> (a nullable column: \<open>None\<close> is SQL NULL),
  \<^verbatim>\<open>created_at DATETIME DEFAULT CURRENT_TIMESTAMP\<close> (an instant in milliseconds since the
  epoch, always a whole second).
\<close>

record todo =
  todo_id :: nat
  task :: string
  status :: "string option"
  created_at :: nat

text \<open>
  The database: the rows in insertion order, the table's AUTO_INCREMENT counter, and
  whether the session runs in strict SQL mode (the default of MySQL 5.7 and later).
\<close>

record db =
  rows :: "todo list"
  auto_increment :: nat
  strict :: bool

text \<open>What a request finds outside the program: whether the connection answers (\<open>Some m\<close>
  is a failed query with \<^verbatim>\<open>err.message = m\<close>), the database server's clock and the
  Node process's clock (\<^verbatim>\<open>new Date()\<close>), both in milliseconds.\<close>

record env =
  conn_err :: "string option"
  db_clock :: nat
  js_clock :: nat

definition int_max :: nat where
  "int_max = 2147483647"

definition init_db :: "bool \<Rightarrow> db" where
  "init_db m = \<lparr>rows = [], auto_increment = 1, strict = m\<rparr>"

subsection \<open>How the engine stores a bound parameter\<close>

text \<open>
  The engine is MySQL, reached through the \<^verbatim>\<open>mysql2\<close> driver; neither is part of the
  repository. The definitions of this section and the next follow MySQL's documented
  behaviour on the schema above, for the four statements that the handlers send.
\<close>

definition digit :: "nat \<Rightarrow> char" where
  "digit n = ''0123456789'' ! (n mod 10)"

fun digits :: "nat \<Rightarrow> string" where
  "digits n = (if n < 10 then [digit n] else digits (n div 10) @ [digit (n mod 10)])"

declare digits.simps [simp del]

definition decimal :: "int \<Rightarrow> string" where
  "decimal n = (if n < 0 then CHR ''-'' # digits (nat (- n)) else digits (nat n))"

text \<open>
  The character data a parameter denotes in a statement; \<open>None\<close> is SQL NULL. The driver
  writes \<^verbatim>\<open>undefined\<close> and \<^verbatim>\<open>null\<close> as NULL, \<^verbatim>\<open>true\<close> and \<^verbatim>\<open>false\<close> as the numbers
  1 and 0, a number as its numeral.
\<close>

fun text_of :: "jsval \<Rightarrow> string option" where
  "text_of JUndefined = None"
| "text_of JNull = None"
| "text_of (JBool b) = Some (if b then ''1'' else ''0'')"
| "text_of (JNum n) = Some (decimal n)"
| "text_of (JStr s) = Some s"

text \<open>
  \<^verbatim>\<open>VARCHAR(255)\<close>: a longer value is an error in strict mode and cut to 255 characters
  otherwise; excess that is only trailing spaces is cut in either mode.
\<close>

definition varchar255 :: "bool \<Rightarrow> string \<Rightarrow> string + string" where
  "varchar255 strct s =
    (if length s \<le> 255 then Inr s
     else if list_all (\<lambda>c. c = CHR '' '') (drop 255 s) then Inr (take 255 s)
     else if strct then Inl ''Data too long for column 'task' at row 1''
     else Inr (take 255 s))"

text \<open>
  \<^verbatim>\<open>ENUM('active', 'completed')\<close>, nullable: NULL is stored as NULL, a member as itself;
  any other value is an error in strict mode and stored as the empty error member
  otherwise. (MySQL also takes a member written in another letter case or as its index;
  the model treats those spellings as non-members.)
\<close>

definition enum_status :: "bool \<Rightarrow> string option \<Rightarrow> string + string option" where
  "enum_status strct v =
    (case v of
       None \<Rightarrow> Inr None
     | Some s \<Rightarrow>
         if s = ''active'' \<or> s = ''completed'' then Inr (Some s)
         else if strct then Inl ''Data truncated for column 'status' at row 1''
         else Inr (Some []))"

subsection \<open>Statements\<close>

datatype column = TaskCol | StatusCol

text \<open>
  The four statements the handlers send. \<open>UpdateSet fields values i\<close> is
  \<^verbatim>\<open>UPDATE todos SET ... WHERE id = ?\<close> with one \<^verbatim>\<open>col = ?\<close> per entry of \<open>fields\<close>;
  the route parameter \<^verbatim>\<open>:id\<close> is taken as the number it spells.
\<close>

datatype stmt =
    SelectAll
  | InsertTask jsval
  | UpdateSet "column list" "jsval list" nat
  | DeleteWhere nat

text \<open>What the callback of \<^verbatim>\<open>db.query\<close> receives as \<^verbatim>\<open>results\<close>.\<close>

datatype result =
    Rows (result_rows: "todo list")
  | Header (insertId: nat) (affectedRows: nat) (changedRows: nat)

text \<open>\<^verbatim>\<open>ORDER BY created_at DESC\<close>, by insertion into a descending list.\<close>

fun insert_desc :: "todo \<Rightarrow> todo list \<Rightarrow> todo list" where
  "insert_desc r [] = [r]"
| "insert_desc r (x # xs) =
    (if created_at x \<le> created_at r then r # x # xs else x # insert_desc r xs)"

fun order_by_created_at_desc :: "todo list \<Rightarrow> todo list" where
  "order_by_created_at_desc [] = []"
| "order_by_created_at_desc (r # rs) = insert_desc r (order_by_created_at_desc rs)"

text \<open>
  \<^verbatim>\<open>INSERT INTO todos (task) VALUES (?)\<close>: the other columns take their defaults. The id
  is the counter's value; the counter stops at the end of the INT range, and the primary
  key refuses an id that a row already has. \<open>created_at\<close> is the database clock cut to
  the second. A NULL for the NOT NULL column is an error in either mode.
\<close>

definition exec_insert :: "env \<Rightarrow> jsval \<Rightarrow> db \<Rightarrow> (string + result) \<times> db" where
  "exec_insert e v d =
    (case text_of v of
       None \<Rightarrow> (Inl ''Column 'task' cannot be null'', d)
     | Some s \<Rightarrow>
        (case varchar255 (strict d) s of
           Inl err \<Rightarrow> (Inl err, d)
         | Inr t \<Rightarrow>
            (let i = auto_increment d in
             if i \<in> set (map todo_id (rows d))
             then (Inl (''Duplicate entry '' @ digits i @ '' for key PRIMARY''), d)
             else (Inr (Header i 1 0),
                   d\<lparr>rows := rows d @
                        [\<lparr>todo_id = i, task = t, status = Some ''active'',
                          created_at = db_clock e div 1000 * 1000\<rparr>],
                      auto_increment := min (i + 1) int_max\<rparr>))))"

text \<open>
  One \<^verbatim>\<open>col = ?\<close> of an UPDATE, on one row. A NULL for the NOT NULL column \<open>task\<close> is an
  error in strict mode and stored as the empty string otherwise. A value that the engine
  refuses fails the whole statement, and then no row is changed.
\<close>

fun assign :: "bool \<Rightarrow> column \<Rightarrow> jsval \<Rightarrow> todo \<Rightarrow> string + todo" where
  "assign strct TaskCol v r =
    (case text_of v of
       None \<Rightarrow> if strct then Inl ''Column 'task' cannot be null'' else Inr (r\<lparr>task := []\<rparr>)
     | Some s \<Rightarrow>
        (case varchar255 strct s of Inl err \<Rightarrow> Inl err | Inr t \<Rightarrow> Inr (r\<lparr>task := t\<rparr>)))"
| "assign strct StatusCol v r =
    (case enum_status strct (text_of v) of
       Inl err \<Rightarrow> Inl err
     | Inr st \<Rightarrow> Inr (r\<lparr>status := st\<rparr>))"

fun assign_all :: "bool \<Rightarrow> column list \<Rightarrow> jsval list \<Rightarrow> todo \<Rightarrow> string + todo" where
  "assign_all strct (c # cs) (v # vs) r =
    (case assign strct c v r of Inl err \<Rightarrow> Inl err | Inr r' \<Rightarrow> assign_all strct cs vs r')"
| "assign_all strct cs vs r = Inr r"

fun update_rows :: "bool \<Rightarrow> column list \<Rightarrow> jsval list \<Rightarrow> nat \<Rightarrow> todo list \<Rightarrow> string + todo list" where
  "update_rows strct cs vs i [] = Inr []"
| "update_rows strct cs vs i (r # rs) =
    (case (if todo_id r = i then assign_all strct cs vs r else Inr r) of
       Inl err \<Rightarrow> Inl err
     | Inr r' \<Rightarrow>
        (case update_rows strct cs vs i rs of
           Inl err \<Rightarrow> Inl err
         | Inr rs' \<Rightarrow> Inr (r' # rs')))"

text \<open>The rows an UPDATE really changed (\<^verbatim>\<open>changedRows\<close>) and the rows it matched.\<close>

definition changed :: "todo list \<Rightarrow> todo list \<Rightarrow> nat" where
  "changed old new = length (filter (\<lambda>(r, r'). r \<noteq> r') (zip old new))"

definition matched :: "nat \<Rightarrow> todo list \<Rightarrow> nat" where
  "matched i rs = length (filter (\<lambda>r. todo_id r = i) rs)"

definition exec_update :: "column list \<Rightarrow> jsval list \<Rightarrow> nat \<Rightarrow> db \<Rightarrow> (string + result) \<times> db" where
  "exec_update cs vs i d =
    (case update_rows (strict d) cs vs i (rows d) of
       Inl err \<Rightarrow> (Inl err, d)
     | Inr rs' \<Rightarrow> (Inr (Header 0 (matched i (rows d)) (changed (rows d) rs')), d\<lparr>rows := rs'\<rparr>))"

definition exec_delete :: "nat \<Rightarrow> db \<Rightarrow> (string + result) \<times> db" where
  "exec_delete i d =
    (Inr (Header 0 (matched i (rows d)) 0), d\<lparr>rows := filter (\<lambda>r. todo_id r \<noteq> i) (rows d)\<rparr>)"

text \<open>
  \<^verbatim>\<open>db.query(sql, values, callback)\<close>: the callback gets an error (\<open>Inl\<close>) or the results.
  A lost connection fails every statement and leaves the table as it is.
\<close>

definition db_query :: "env \<Rightarrow> stmt \<Rightarrow> db \<Rightarrow> (string + result) \<times> db" where
  "db_query e q d =
    (case conn_err e of
       Some m \<Rightarrow> (Inl m, d)
     | None \<Rightarrow>
        (case q of
           SelectAll \<Rightarrow> (Inr (Rows (order_by_created_at_desc (rows d))), d)
         | InsertTask v \<Rightarrow> exec_insert e v d
         | UpdateSet cs vs i \<Rightarrow> exec_update cs vs i d
         | DeleteWhere i \<Rightarrow> exec_delete i d))"

section \<open>The request handlers of server.js\<close>

text \<open>The \<^verbatim>\<open>data\<close> object of the POST response.\<close>

record new_task =
  new_id :: nat
  new_task :: jsval
  new_status :: string
  new_created_at :: nat

text \<open>The JSON bodies: \<^verbatim>\<open>{error}\<close>, \<^verbatim>\<open>{message, data}\<close> and \<^verbatim>\<open>{message, changes}\<close>.\<close>

datatype payload =
    ErrorBody string
  | ListBody string "todo list"
  | TaskBody string new_task
  | ChangesBody string nat

datatype response = Response nat payload

text \<open>What handling one request leaves behind: the response, the database, and the
  statements passed to \<^verbatim>\<open>db.query\<close> on the way.\<close>

record outcome =
  response :: response
  store :: db
  queries :: "stmt list"

definition get_todos :: "env \<Rightarrow> db \<Rightarrow> outcome" where
  "get_todos e d =
    (let sql = SelectAll in
     case db_query e sql d of
       (Inl err, d') \<Rightarrow>
         \<lparr>response = Response 400 (ErrorBody err), store = d', queries = [sql]\<rparr>
     | (Inr results, d') \<Rightarrow>
         \<lparr>response = Response 200 (ListBody ''success'' (result_rows results)),
          store = d', queries = [sql]\<rparr>)"

definition post_todos :: "env \<Rightarrow> req_body \<Rightarrow> db \<Rightarrow> outcome" where
  "post_todos e body d =
    (let task = body_task body in
     if \<not> truthy task
     then \<lparr>response = Response 400 (ErrorBody ''Task content is required''),
           store = d, queries = []\<rparr>
     else
      (let sql = InsertTask task in
       case db_query e sql d of
         (Inl err, d') \<Rightarrow>
           \<lparr>response = Response 400 (ErrorBody err), store = d', queries = [sql]\<rparr>
       | (Inr results, d') \<Rightarrow>
           \<lparr>response = Response 200 (TaskBody ''success''
               \<lparr>new_id = insertId results, new_task = task, new_status = ''active'',
                new_created_at = js_clock e\<rparr>),
            store = d', queries = [sql]\<rparr>))"

definition put_todos :: "env \<Rightarrow> nat \<Rightarrow> req_body \<Rightarrow> db \<Rightarrow> outcome" where
  "put_todos e i body d =
    (let task = body_task body; status = body_status body;
         fields = []; values = [];
         (fields, values) =
           (if task \<noteq> JUndefined then (fields @ [TaskCol], values @ [task])
            else (fields, values));
         (fields, values) =
           (if status \<noteq> JUndefined then (fields @ [StatusCol], values @ [status])
            else (fields, values))
     in
     if length fields = 0
     then \<lparr>response = Response 400 (ErrorBody ''No fields to update''),
           store = d, queries = []\<rparr>
     else
      (let sql = UpdateSet fields values i in
       case db_query e sql d of
         (Inl err, d') \<Rightarrow>
           \<lparr>response = Response 400 (ErrorBody err), store = d', queries = [sql]\<rparr>
       | (Inr results, d') \<Rightarrow>
           \<lparr>response = Response 200 (ChangesBody ''success'' (changedRows results)),
            store = d', queries = [sql]\<rparr>))"

definition delete_todos :: "env \<Rightarrow> nat \<Rightarrow> db \<Rightarrow> outcome" where
  "delete_todos e i d =
    (let sql = DeleteWhere i in
     case db_query e sql d of
       (Inl err, d') \<Rightarrow>
         \<lparr>response = Response 400 (ErrorBody err), store = d', queries = [sql]\<rparr>
     | (Inr results, d') \<Rightarrow>
         \<lparr>response = Response 200 (ChangesBody ''deleted'' (affectedRows results)),
          store = d', queries = [sql]\<rparr>)"

section \<open>The client functions of script.js that send requests\<close>

text \<open>
  \<^verbatim>\<open>String.prototype.trim\<close>. A character of the model is a UTF-16 code unit below 256;
  among those, \<^verbatim>\<open>trim\<close> strips the white space U+0009, U+000B, U+000C, U+0020 and U+00A0
  and the line terminators U+000A and U+000D. Text with a code unit from 256 on is
  outside the model.
\<close>

definition is_space :: "char \<Rightarrow> bool" where
  "is_space c =
     (c \<in> set [CHR 0x09, CHR 0x0A, CHR 0x0B, CHR 0x0C, CHR 0x0D, CHR 0x20, CHR 0xA0])"

definition trim :: "string \<Rightarrow> string" where
  "trim s = rev (dropWhile is_space (rev (dropWhile is_space s)))"

text \<open>
  Each function is modelled up to the request that can change the table; the
  \<^verbatim>\<open>fetchTodos\<close> that follows only sends a GET, which leaves the database as it is.
  \<^verbatim>\<open>addTodo\<close> and \<^verbatim>\<open>updateTodo\<close> give \<open>None\<close> when they return without sending their POST
  or PUT.
\<close>

definition addTodo :: "env \<Rightarrow> string \<Rightarrow> db \<Rightarrow> outcome option" where
  "addTodo e input d =
    (let task = trim input in
     if \<not> truthy (JStr task) then None
     else Some (post_todos e \<lparr>body_task = JStr task, body_status = JUndefined\<rparr> d))"

definition updateTodoStatus :: "env \<Rightarrow> nat \<Rightarrow> string \<Rightarrow> db \<Rightarrow> outcome" where
  "updateTodoStatus e i st d =
    put_todos e i \<lparr>body_task = JUndefined, body_status = JStr st\<rparr> d"

definition toggleStatus :: "env \<Rightarrow> nat \<Rightarrow> jsval \<Rightarrow> db \<Rightarrow> outcome" where
  "toggleStatus e i currentStatus d =
    (let newStatus = (if currentStatus = JStr ''active'' then ''completed'' else ''active'')
     in updateTodoStatus e i newStatus d)"

definition updateTodo :: "env \<Rightarrow> nat \<Rightarrow> string \<Rightarrow> db \<Rightarrow> outcome option" where
  "updateTodo e i newTask d =
    (if \<not> truthy (JStr (trim newTask)) then None
     else Some (put_todos e i \<lparr>body_task = JStr newTask, body_status = JUndefined\<rparr> d))"

text \<open>The value of \<^verbatim>\<open>todo.status\<close> in a row of the list response.\<close>

definition status_json :: "todo \<Rightarrow> jsval" where
  "status_json r = (case status r of None \<Rightarrow> JNull | Some s \<Rightarrow> JStr s)"

text \<open>The click handler that \<^verbatim>\<open>renderTodos\<close> gives the status button of a rendered row
  (script.js, lines 62 to 65): \<^verbatim>\<open>toggleStatus(todo.id, todo.status)\<close>.\<close>

definition statusBtn_onclick :: "env \<Rightarrow> todo \<Rightarrow> db \<Rightarrow> outcome" where
  "statusBtn_onclick e todo d = toggleStatus e (todo_id todo) (status_json todo) d"

section \<open>Reachable databases\<close>

text \<open>The databases that the four routes can produce from the empty table that
  \<^verbatim>\<open>initSql\<close> creates.\<close>

inductive reachable :: "db \<Rightarrow> bool" where
  init: "reachable (init_db m)"
| get: "reachable d \<Longrightarrow> reachable (store (get_todos e d))"
| post: "reachable d \<Longrightarrow> reachable (store (post_todos e body d))"
| put: "reachable d \<Longrightarrow> reachable (store (put_todos e i body d))"
| delete: "reachable d \<Longrightarrow> reachable (store (delete_todos e i d))"


section \<open>Notions used in the proofs\<close>

text \<open>The \<^verbatim>\<open>fields\<close> and \<^verbatim>\<open>values\<close> arrays that \<open>put_todos\<close> has built when it reaches
  the length test.\<close>

definition fields_of :: "req_body \<Rightarrow> column list" where
  "fields_of body =
     (if body_task body \<noteq> JUndefined then [TaskCol] else []) @
     (if body_status body \<noteq> JUndefined then [StatusCol] else [])"

definition values_of :: "req_body \<Rightarrow> jsval list" where
  "values_of body =
     (if body_task body \<noteq> JUndefined then [body_task body] else []) @
     (if body_status body \<noteq> JUndefined then [body_status body] else [])"

text \<open>What an UPDATE on the columns \<open>cs\<close> of the rows with id \<open>i\<close> may do to one row.\<close>

definition frame :: "nat \<Rightarrow> column list \<Rightarrow> todo \<Rightarrow> todo \<Rightarrow> bool" where
  "frame i cs r r' \<longleftrightarrow>
     todo_id r' = todo_id r \<and> created_at r' = created_at r \<and>
     (TaskCol \<notin> set cs \<longrightarrow> task r' = task r) \<and>
     (StatusCol \<notin> set cs \<longrightarrow> status r' = status r) \<and>
     (todo_id r \<noteq> i \<longrightarrow> r' = r)"

text \<open>The primary key: no id occurs twice, and every id is below the counter until the
  counter has reached the end of the INT range.\<close>

definition ids_ok :: "db \<Rightarrow> bool" where
  "ids_ok d \<longleftrightarrow>
     distinct (map todo_id (rows d)) \<and>
     (\<forall>k\<in>set (map todo_id (rows d)). k < auto_increment d \<or> auto_increment d = int_max)"

subsection \<open>Sample requests and databases\<close>

definition env0 :: env where
  "env0 = \<lparr>conn_err = None, db_clock = 1500, js_clock = 1503\<rparr>"

definition env_down :: env where
  "env_down = \<lparr>conn_err = Some ''connect ECONNREFUSED'', db_clock = 1500, js_clock = 1503\<rparr>"

definition milk :: req_body where
  "milk = \<lparr>body_task = JStr ''Buy milk'', body_status = JUndefined\<rparr>"

definition complete :: req_body where
  "complete = \<lparr>body_task = JUndefined, body_status = JStr ''completed''\<rparr>"

definition milk_row :: todo where
  "milk_row = \<lparr>todo_id = 1, task = ''Buy milk'', status = Some ''active'', created_at = 1000\<rparr>"

definition db1 :: db where
  "db1 = \<lparr>rows = [milk_row], auto_increment = 2, strict = True\<rparr>"

definition db2 :: db where
  "db2 = \<lparr>rows = [milk_row,
                  \<lparr>todo_id = 2, task = ''Walk dog'', status = Some ''completed'', created_at = 2000\<rparr>],
          auto_increment = 3, strict = True\<rparr>"

section \<open>Validation in the handlers\<close>

lemma trim_whitespace_only: "list_all is_space s \<Longrightarrow> trim s = []"
proof -
  assume "list_all is_space s"
  then have h: "dropWhile is_space s = []" by (simp add: list_all_iff)
  show ?thesis by (simp only: trim_def h rev.simps dropWhile.simps)
qed

lemma post_milk:
  "post_todos env0 milk (init_db True) =
    \<lparr>response = Response 200 (TaskBody ''success''
        \<lparr>new_id = 1, new_task = JStr ''Buy milk'', new_status = ''active'',
         new_created_at = 1503\<rparr>),
     store = db1, queries = [InsertTask (JStr ''Buy milk'')]\<rparr>"
  by (simp add: post_todos_def milk_def env0_def init_db_def db1_def milk_row_def db_query_def
      exec_insert_def varchar255_def int_max_def Let_def)

lemma reachable_db1: "reachable db1"
proof -
  have "reachable (store (post_todos env0 milk (init_db True)))"
    by (rule reachable.post) (rule reachable.init)
  then show ?thesis by (simp add: post_milk)
qed

text \<open>
  Claim C10. A POST whose \<open>task\<close> field is absent, null, the empty string, the number 0 or
  false is answered with 400 and the message \<^verbatim>\<open>Task content is required\<close>; no statement
  is sent to the database and the database is as before, whatever the state of the
  connection. The five cases get the same outcome.
\<close>

theorem post_falsy_task_rejected:
  "body_task body \<in> {JUndefined, JNull, JStr [], JNum 0, JBool False} \<Longrightarrow>
   post_todos e body d =
     \<lparr>response = Response 400 (ErrorBody ''Task content is required''),
      store = d, queries = []\<rparr>"
  by (auto simp: post_todos_def)

theorem post_falsy_task_rejected_witness:
  "JNum 0 \<in> {JUndefined, JNull, JStr [], JNum 0, JBool False} \<and>
   post_todos env_down \<lparr>body_task = JNum 0, body_status = JUndefined\<rparr> db1 =
     \<lparr>response = Response 400 (ErrorBody ''Task content is required''),
      store = db1, queries = []\<rparr>"
  using post_falsy_task_rejected
    [of "\<lparr>body_task = JNum 0, body_status = JUndefined\<rparr>" env_down db1]
  by simp

text \<open>
  Claim C7. A PUT whose body has neither \<open>task\<close> nor \<open>status\<close> is answered with 400 and the
  message \<^verbatim>\<open>No fields to update\<close>; no statement is sent to the database and the database
  is as before.
\<close>

theorem put_without_fields_rejected:
  "body_task body = JUndefined \<Longrightarrow> body_status body = JUndefined \<Longrightarrow>
   put_todos e i body d =
     \<lparr>response = Response 400 (ErrorBody ''No fields to update''), store = d, queries = []\<rparr>"
  by (simp add: put_todos_def)

theorem put_without_fields_rejected_witness:
  "body_task \<lparr>body_task = JUndefined, body_status = JUndefined\<rparr> = JUndefined \<and>
   body_status \<lparr>body_task = JUndefined, body_status = JUndefined\<rparr> = JUndefined \<and>
   put_todos env0 1 \<lparr>body_task = JUndefined, body_status = JUndefined\<rparr> db1 =
     \<lparr>response = Response 400 (ErrorBody ''No fields to update''), store = db1, queries = []\<rparr>"
  using put_without_fields_rejected
    [of "\<lparr>body_task = JUndefined, body_status = JUndefined\<rparr>" env0 1 db1]
  by simp

text \<open>
  Claim C1 fails on the code. The handler's only test is \<^verbatim>\<open>!task\<close>, and a text of one
  space passes it: on the empty table the POST is answered with 200 and a row with that
  text is inserted, where the claim has a 400 and no row. The client's \<^verbatim>\<open>addTodo\<close> trims
  its input and sends nothing for such a text; the handler has no such step.
\<close>

theorem post_whitespace_text_inserted:
  "post_todos env0 \<lparr>body_task = JStr '' '', body_status = JUndefined\<rparr> (init_db True) =
    \<lparr>response = Response 200 (TaskBody ''success''
        \<lparr>new_id = 1, new_task = JStr '' '', new_status = ''active'', new_created_at = 1503\<rparr>),
     store = \<lparr>rows = [\<lparr>todo_id = 1, task = '' '', status = Some ''active'',
                       created_at = 1000\<rparr>],
              auto_increment = 2, strict = True\<rparr>,
     queries = [InsertTask (JStr '' '')]\<rparr>"
  by (simp add: post_todos_def env0_def init_db_def db_query_def exec_insert_def
      varchar255_def int_max_def Let_def)

text \<open>The handler sends the INSERT for every text that is not empty, white space or not.\<close>

lemma post_sends_every_nonempty_text:
  "s \<noteq> [] \<Longrightarrow>
   queries (post_todos e \<lparr>body_task = JStr s, body_status = st\<rparr> d) = [InsertTask (JStr s)]"
  by (simp add: post_todos_def Let_def split: prod.splits sum.splits)

text \<open>The client keeps such text from the server: when the input is only white space,
  \<^verbatim>\<open>addTodo\<close> returns before its request.\<close>

lemma addTodo_drops_whitespace_only: "list_all is_space s \<Longrightarrow> addTodo e s d = None"
  by (simp add: addTodo_def trim_whitespace_only)

lemma addTodo_drops_spaces_and_nbsp:
  "addTodo e [CHR 0x20, CHR 0xA0, CHR 0x09] d = None"
  by (rule addTodo_drops_whitespace_only) (simp add: is_space_def)

section \<open>Updates and deletions\<close>

lemma assign_frame:
  "assign strct c v r = Inr r' \<Longrightarrow>
     todo_id r' = todo_id r \<and> created_at r' = created_at r \<and>
     (c \<noteq> TaskCol \<longrightarrow> task r' = task r) \<and> (c \<noteq> StatusCol \<longrightarrow> status r' = status r)"
  by (cases c) (auto split: option.splits sum.splits if_splits)

lemma assign_all_frame:
  "assign_all strct cs vs r = Inr r' \<Longrightarrow>
     todo_id r' = todo_id r \<and> created_at r' = created_at r \<and>
     (TaskCol \<notin> set cs \<longrightarrow> task r' = task r) \<and>
     (StatusCol \<notin> set cs \<longrightarrow> status r' = status r)"
proof (induction strct cs vs r rule: assign_all.induct)
  case (1 strct c cs v vs r)
  from "1.prems" obtain r1 where
    a: "assign strct c v r = Inr r1" and b: "assign_all strct cs vs r1 = Inr r'"
    by (auto split: sum.splits)
  from "1.IH" [OF a b] assign_frame [OF a] show ?case by auto
qed auto

lemma update_rows_frame:
  "update_rows strct cs vs i rs = Inr rs' \<Longrightarrow> list_all2 (frame i cs) rs rs'"
proof (induction rs arbitrary: rs')
  case Nil
  then show ?case by simp
next
  case (Cons r rs)
  from Cons.prems obtain r1 rs1 where
    a: "(if todo_id r = i then assign_all strct cs vs r else Inr r) = Inr r1" and
    b: "update_rows strct cs vs i rs = Inr rs1" and c: "rs' = r1 # rs1"
    by (auto split: sum.splits)
  have "frame i cs r r1"
    using a assign_all_frame [of strct cs vs r r1] by (auto simp: frame_def split: if_splits)
  with Cons.IH [OF b] c show ?case by simp
qed

lemma update_rows_ids:
  "update_rows strct cs vs i rs = Inr rs' \<Longrightarrow> map todo_id rs' = map todo_id rs"
proof -
  assume "update_rows strct cs vs i rs = Inr rs'"
  then have "list_all2 (frame i cs) rs rs'" by (rule update_rows_frame)
  then show ?thesis by (induction rule: list_all2_induct) (simp_all add: frame_def)
qed



lemma matched_none: "\<forall>r\<in>set rs. todo_id r \<noteq> i \<Longrightarrow> matched i rs = 0"
  by (simp add: matched_def)


lemma matched_filter: "matched i rs = length rs - length (filter (\<lambda>r. todo_id r \<noteq> i) rs)"
  unfolding matched_def using sum_length_filter_compl [of "\<lambda>r. todo_id r = i" rs] by simp

lemma put_todos_up:
  assumes "conn_err e = None" "body_task body \<noteq> JUndefined \<or> body_status body \<noteq> JUndefined"
  shows "put_todos e i body d =
      (case update_rows (strict d) (fields_of body) (values_of body) i (rows d) of
         Inl err \<Rightarrow> \<lparr>response = Response 400 (ErrorBody err), store = d,
                     queries = [UpdateSet (fields_of body) (values_of body) i]\<rparr>
       | Inr rs' \<Rightarrow>
           \<lparr>response = Response 200 (ChangesBody ''success'' (changed (rows d) rs')),
            store = d\<lparr>rows := rs'\<rparr>,
            queries = [UpdateSet (fields_of body) (values_of body) i]\<rparr>)"
  using assms
  by (auto simp: put_todos_def db_query_def exec_update_def fields_of_def values_of_def Let_def
      split: sum.splits)

lemma put_todos_down:
  assumes "conn_err e = Some m" "body_task body \<noteq> JUndefined \<or> body_status body \<noteq> JUndefined"
  shows "put_todos e i body d =
      \<lparr>response = Response 400 (ErrorBody m), store = d,
        queries = [UpdateSet (fields_of body) (values_of body) i]\<rparr>"
  using assms
  by (auto simp: put_todos_def db_query_def fields_of_def values_of_def Let_def)

lemma put_todos_none:
  assumes "body_task body = JUndefined" "body_status body = JUndefined"
  shows "put_todos e i body d =
     \<lparr>response = Response 400 (ErrorBody ''No fields to update''), store = d, queries = []\<rparr>"
  using assms by (simp add: put_todos_def)

lemma put_todos_store_cases:
  "store (put_todos e i body d) = d \<or>
   (\<exists>rs'. update_rows (strict d) (fields_of body) (values_of body) i (rows d) = Inr rs' \<and>
      store (put_todos e i body d) = d\<lparr>rows := rs'\<rparr>)"
proof (cases "body_task body = JUndefined \<and> body_status body = JUndefined")
  case True
  then show ?thesis by (simp add: put_todos_none)
next
  case False
  then have p: "body_task body \<noteq> JUndefined \<or> body_status body \<noteq> JUndefined" by simp
  show ?thesis
  proof (cases "conn_err e")
    case None
    then show ?thesis by (simp add: put_todos_up [OF None p] split: sum.splits)
  next
    case (Some m)
    then show ?thesis by (simp add: put_todos_down [OF Some p])
  qed
qed

text \<open>
  Claim C5. Whatever a PUT does, the table keeps its rows in place, and each row keeps its
  id and its \<open>created_at\<close>; a row keeps its text when the body has no \<open>task\<close>, its status
  when the body has no \<open>status\<close>, and everything when its id is not the one in the route.
\<close>

theorem put_changes_only_given_fields:
  "length (rows (store (put_todos e i body d))) = length (rows d) \<and>
   auto_increment (store (put_todos e i body d)) = auto_increment d \<and>
   (\<forall>k<length (rows d).
      todo_id (rows (store (put_todos e i body d)) ! k) = todo_id (rows d ! k) \<and>
      created_at (rows (store (put_todos e i body d)) ! k) = created_at (rows d ! k) \<and>
      (body_task body = JUndefined \<longrightarrow>
         task (rows (store (put_todos e i body d)) ! k) = task (rows d ! k)) \<and>
      (body_status body = JUndefined \<longrightarrow>
         status (rows (store (put_todos e i body d)) ! k) = status (rows d ! k)) \<and>
      (todo_id (rows d ! k) \<noteq> i \<longrightarrow> rows (store (put_todos e i body d)) ! k = rows d ! k))"
proof -
  from put_todos_store_cases [of e i body d] show ?thesis
  proof
    assume "store (put_todos e i body d) = d"
    then show ?thesis by simp
  next
    assume "\<exists>rs'. update_rows (strict d) (fields_of body) (values_of body) i (rows d) = Inr rs' \<and>
      store (put_todos e i body d) = d\<lparr>rows := rs'\<rparr>"
    then obtain rs' where
      u: "update_rows (strict d) (fields_of body) (values_of body) i (rows d) = Inr rs'" and
      s: "store (put_todos e i body d) = d\<lparr>rows := rs'\<rparr>" by blast
    from update_rows_frame [OF u]
    have l: "length (rows d) = length rs'" and
         f: "\<And>k. k < length (rows d) \<Longrightarrow> frame i (fields_of body) (rows d ! k) (rs' ! k)"
      by (simp_all add: list_all2_conv_all_nth)
    show ?thesis
      using l f by (simp add: s frame_def fields_of_def)
  qed
qed

theorem put_changes_only_given_fields_witness:
  "(0::nat) < length (rows db2) \<and> 1 < length (rows db2) \<and>
   body_task complete = JUndefined \<and> todo_id (rows db2 ! 1) \<noteq> 1 \<and>
   length (rows (store (put_todos env0 1 complete db2))) = 2 \<and>
   task (rows (store (put_todos env0 1 complete db2)) ! 0) = ''Buy milk'' \<and>
   created_at (rows (store (put_todos env0 1 complete db2)) ! 0) = 1000 \<and>
   rows (store (put_todos env0 1 complete db2)) ! 1 =
     \<lparr>todo_id = 2, task = ''Walk dog'', status = Some ''completed'', created_at = 2000\<rparr>"
  using put_changes_only_given_fields [of env0 1 complete db2]
  by (simp add: db2_def milk_row_def complete_def)












section \<open>What a PUT can store\<close>

text \<open>
  Claim C2 fails on the code. POST refuses an empty text and never stores one, and the
  client's \<^verbatim>\<open>updateTodo\<close> refuses an edit that is empty after trimming; the PUT handler
  only tests \<^verbatim>\<open>task !== undefined\<close>. A PUT with the empty string as \<open>task\<close> on the row
  that one POST created is answered with 200 and one change, and the reachable table then
  holds a row whose text is empty.
\<close>

theorem put_stores_empty_task:
  "reachable (store (put_todos env0 1 \<lparr>body_task = JStr [], body_status = JUndefined\<rparr> db1)) \<and>
   put_todos env0 1 \<lparr>body_task = JStr [], body_status = JUndefined\<rparr> db1 =
    \<lparr>response = Response 200 (ChangesBody ''success'' 1),
     store = \<lparr>rows = [\<lparr>todo_id = 1, task = [], status = Some ''active'', created_at = 1000\<rparr>],
              auto_increment = 2, strict = True\<rparr>,
     queries = [UpdateSet [TaskCol] [JStr []] 1]\<rparr>"
proof -
  have "reachable (store (put_todos env0 1 \<lparr>body_task = JStr [], body_status = JUndefined\<rparr> db1))"
    by (rule reachable.put) (rule reachable_db1)
  moreover have
    "put_todos env0 1 \<lparr>body_task = JStr [], body_status = JUndefined\<rparr> db1 =
      \<lparr>response = Response 200 (ChangesBody ''success'' 1),
       store = \<lparr>rows = [\<lparr>todo_id = 1, task = [], status = Some ''active'', created_at = 1000\<rparr>],
                auto_increment = 2, strict = True\<rparr>,
       queries = [UpdateSet [TaskCol] [JStr []] 1]\<rparr>"
    by (simp add: put_todos_def db_query_def exec_update_def varchar255_def changed_def
        matched_def env0_def db1_def milk_row_def Let_def)
  ultimately show ?thesis by simp
qed

lemma digits_not_empty: "digits n \<noteq> []"
  by (subst digits.simps) simp

lemma post_stores_no_empty_task:
  "r \<in> set (rows (store (post_todos e body d))) \<Longrightarrow> r \<notin> set (rows d) \<Longrightarrow> task r \<noteq> []"
  by (cases "body_task body"; cases "conn_err e")
     (auto simp: post_todos_def db_query_def exec_insert_def varchar255_def decimal_def
        digits_not_empty Let_def split: if_splits)

lemma updateTodo_drops_empty_edit: "list_all is_space s \<Longrightarrow> updateTodo e i s d = None"
  by (simp add: updateTodo_def trim_whitespace_only)

text \<open>
  Claim C8 fails on the code. The column is an ENUM of the two values with the default
  \<open>active\<close>, but it is not declared NOT NULL as \<open>task\<close> is, and the PUT handler passes on
  every status that is not \<^verbatim>\<open>undefined\<close>. A PUT with \<^verbatim>\<open>null\<close> as \<open>status\<close> is answered with
  200 and one change, and the reachable table then holds a row whose status is NULL.
\<close>

theorem put_stores_null_status:
  "reachable (store (put_todos env0 1 \<lparr>body_task = JUndefined, body_status = JNull\<rparr> db1)) \<and>
   put_todos env0 1 \<lparr>body_task = JUndefined, body_status = JNull\<rparr> db1 =
    \<lparr>response = Response 200 (ChangesBody ''success'' 1),
     store = \<lparr>rows = [\<lparr>todo_id = 1, task = ''Buy milk'', status = None, created_at = 1000\<rparr>],
              auto_increment = 2, strict = True\<rparr>,
     queries = [UpdateSet [StatusCol] [JNull] 1]\<rparr>"
proof -
  have "reachable (store (put_todos env0 1 \<lparr>body_task = JUndefined, body_status = JNull\<rparr> db1))"
    by (rule reachable.put) (rule reachable_db1)
  moreover have
    "put_todos env0 1 \<lparr>body_task = JUndefined, body_status = JNull\<rparr> db1 =
      \<lparr>response = Response 200 (ChangesBody ''success'' 1),
       store = \<lparr>rows = [\<lparr>todo_id = 1, task = ''Buy milk'', status = None, created_at = 1000\<rparr>],
                auto_increment = 2, strict = True\<rparr>,
       queries = [UpdateSet [StatusCol] [JNull] 1]\<rparr>"
    by (simp add: put_todos_def db_query_def exec_update_def enum_status_def changed_def
        matched_def env0_def db1_def milk_row_def Let_def)
  ultimately show ?thesis by simp
qed

lemma enum_status_strict:
  "enum_status True v = Inr st \<Longrightarrow>
     st = None \<or> st = Some ''active'' \<or> st = Some ''completed''"
  by (auto simp: enum_status_def split: option.splits if_splits)

section \<open>Listing\<close>

lemma mset_insert_desc: "mset (insert_desc r xs) = add_mset r (mset xs)"
  by (induction xs) auto

lemma mset_order_by: "mset (order_by_created_at_desc rs) = mset rs"
  by (induction rs) (auto simp: mset_insert_desc)

lemma set_insert_desc: "set (insert_desc r xs) = insert r (set xs)"
  using mset_insert_desc [of r xs] by (metis set_mset_add_mset_insert set_mset_mset)

lemma sorted_insert_desc:
  "sorted_wrt (\<lambda>a b. created_at b \<le> created_at a) xs \<Longrightarrow>
   sorted_wrt (\<lambda>a b. created_at b \<le> created_at a) (insert_desc r xs)"
  by (induction xs) (auto simp: set_insert_desc)

lemma sorted_order_by:
  "sorted_wrt (\<lambda>a b. created_at b \<le> created_at a) (order_by_created_at_desc rs)"
  by (induction rs) (auto simp: sorted_insert_desc)

text \<open>
  Claim C6. While the connection answers, GET answers 200 with a list that holds exactly
  the rows of the table, each as often as the table has it, in an order in which no row
  comes before one with a later \<open>created_at\<close>. When the query fails, GET answers 400 with
  the error's message. The database is unchanged either way.
\<close>

theorem get_lists_all_rows_newest_first:
  "(conn_err e = None \<longrightarrow>
      response (get_todos e d) =
        Response 200 (ListBody ''success'' (order_by_created_at_desc (rows d))) \<and>
      mset (order_by_created_at_desc (rows d)) = mset (rows d) \<and>
      sorted_wrt (\<lambda>a b. created_at b \<le> created_at a) (order_by_created_at_desc (rows d))) \<and>
   (\<forall>m. conn_err e = Some m \<longrightarrow> response (get_todos e d) = Response 400 (ErrorBody m)) \<and>
   store (get_todos e d) = d"
  by (cases "conn_err e")
     (simp_all add: get_todos_def db_query_def mset_order_by sorted_order_by)

theorem get_lists_all_rows_newest_first_witness:
  "conn_err env0 = None \<and>
   response (get_todos env0 db2) =
     Response 200 (ListBody ''success''
       [\<lparr>todo_id = 2, task = ''Walk dog'', status = Some ''completed'', created_at = 2000\<rparr>,
        milk_row]) \<and>
   store (get_todos env0 db2) = db2"
proof -
  have a: "conn_err env0 = None" by (simp add: env0_def)
  have b: "order_by_created_at_desc (rows db2) =
      [\<lparr>todo_id = 2, task = ''Walk dog'', status = Some ''completed'', created_at = 2000\<rparr>,
       milk_row]"
    by (simp add: db2_def milk_row_def)
  from get_lists_all_rows_newest_first [of env0 db2] a b show ?thesis by simp
qed

lemma get_fails_when_storage_is_down:
  "get_todos env_down db2 =
     \<lparr>response = Response 400 (ErrorBody ''connect ECONNREFUSED''), store = db2,
      queries = [SelectAll]\<rparr>"
  by (simp add: get_todos_def db_query_def env_down_def)

section \<open>The primary key\<close>

lemma get_store: "store (get_todos e d) = d"
  by (cases "conn_err e") (simp_all add: get_todos_def db_query_def)

lemma post_store_cases:
  "store (post_todos e body d) = d \<or>
   (\<exists>t. auto_increment d \<notin> set (map todo_id (rows d)) \<and>
      store (post_todos e body d) =
        d\<lparr>rows := rows d @ [\<lparr>todo_id = auto_increment d, task = t, status = Some ''active'',
                               created_at = db_clock e div 1000 * 1000\<rparr>],
          auto_increment := min (auto_increment d + 1) int_max\<rparr>)"
  by (cases "conn_err e")
     (auto simp: post_todos_def db_query_def exec_insert_def Let_def
        split: option.splits sum.splits)

lemma delete_store_cases:
  "store (delete_todos e i d) = d \<or>
   store (delete_todos e i d) = d\<lparr>rows := filter (\<lambda>r. todo_id r \<noteq> i) (rows d)\<rparr>"
  by (cases "conn_err e") (simp_all add: delete_todos_def db_query_def exec_delete_def)

lemma reachable_ids_ok: "reachable d \<Longrightarrow> ids_ok d"
proof (induction rule: reachable.induct)
  case (init m)
  show ?case by (simp add: ids_ok_def init_db_def)
next
  case (get d e)
  then show ?case by (simp add: get_store)
next
  case (post d e body)
  from post_store_cases [of e body d] show ?case
  proof
    assume "store (post_todos e body d) = d"
    with post.IH show ?thesis by simp
  next
    assume "\<exists>t. auto_increment d \<notin> set (map todo_id (rows d)) \<and>
      store (post_todos e body d) =
        d\<lparr>rows := rows d @ [\<lparr>todo_id = auto_increment d, task = t, status = Some ''active'',
                               created_at = db_clock e div 1000 * 1000\<rparr>],
          auto_increment := min (auto_increment d + 1) int_max\<rparr>"
    then obtain t where fresh: "auto_increment d \<notin> set (map todo_id (rows d))" and
      s: "store (post_todos e body d) =
        d\<lparr>rows := rows d @ [\<lparr>todo_id = auto_increment d, task = t, status = Some ''active'',
                               created_at = db_clock e div 1000 * 1000\<rparr>],
          auto_increment := min (auto_increment d + 1) int_max\<rparr>" by blast
    from post.IH fresh show ?thesis
      unfolding s ids_ok_def by (auto simp: min_def)
  qed
next
  case (put d e i body)
  from put_todos_store_cases [of e i body d] show ?case
  proof
    assume "store (put_todos e i body d) = d"
    with put.IH show ?thesis by simp
  next
    assume "\<exists>rs'. update_rows (strict d) (fields_of body) (values_of body) i (rows d) = Inr rs' \<and>
      store (put_todos e i body d) = d\<lparr>rows := rs'\<rparr>"
    then obtain rs' where
      u: "update_rows (strict d) (fields_of body) (values_of body) i (rows d) = Inr rs'" and
      s: "store (put_todos e i body d) = d\<lparr>rows := rs'\<rparr>" by blast
    have m: "map todo_id rs' = map todo_id (rows d)" by (rule update_rows_ids [OF u])
    with put.IH show ?thesis
      unfolding s ids_ok_def by simp
  qed
next
  case (delete d e i)
  from delete_store_cases [of e i d] delete.IH show ?case
    by (auto simp: ids_ok_def distinct_map_filter)
qed

lemma same_id_same_row:
  "distinct (map todo_id rs) \<Longrightarrow> r \<in> set rs \<Longrightarrow> x \<in> set rs \<Longrightarrow>
     todo_id x = todo_id r \<Longrightarrow> x = r"
  by (meson distinct_map inj_onD)

section \<open>The status column in strict mode\<close>

text \<open>What the ENUM does keep out: in strict mode every status of a reachable table is
  NULL, \<open>active\<close> or \<open>completed\<close>.\<close>

lemma assign_status_strict:
  "assign True c v r = Inr r' \<Longrightarrow>
   status r = None \<or> status r = Some ''active'' \<or> status r = Some ''completed'' \<Longrightarrow>
   status r' = None \<or> status r' = Some ''active'' \<or> status r' = Some ''completed''"
  by (cases c) (auto simp: enum_status_def split: option.splits sum.splits if_splits)

lemma assign_all_status_strict:
  "assign_all True cs vs r = Inr r' \<Longrightarrow>
   status r = None \<or> status r = Some ''active'' \<or> status r = Some ''completed'' \<Longrightarrow>
   status r' = None \<or> status r' = Some ''active'' \<or> status r' = Some ''completed''"
proof (induction "True" cs vs r rule: assign_all.induct)
  case (1 c cs v vs r)
  from "1.prems"(1) obtain r1 where
    a: "assign True c v r = Inr r1" and b: "assign_all True cs vs r1 = Inr r'"
    by (auto split: sum.splits)
  from "1.hyps" [OF a b] assign_status_strict [OF a "1.prems"(2)] show ?case by blast
qed auto

lemma update_rows_status_strict:
  "update_rows True cs vs i rs = Inr rs' \<Longrightarrow>
   list_all (\<lambda>r. status r = None \<or> status r = Some ''active'' \<or> status r = Some ''completed'') rs \<Longrightarrow>
   list_all (\<lambda>r. status r = None \<or> status r = Some ''active'' \<or> status r = Some ''completed'') rs'"
proof (induction rs arbitrary: rs')
  case Nil
  then show ?case by simp
next
  case (Cons r rs)
  from Cons.prems(1) obtain r1 rs1 where
    a: "(if todo_id r = i then assign_all True cs vs r else Inr r) = Inr r1" and
    b: "update_rows True cs vs i rs = Inr rs1" and c: "rs' = r1 # rs1"
    by (auto split: sum.splits)
  from Cons.prems(2) have hd: "status r = None \<or> status r = Some ''active'' \<or> status r = Some ''completed''"
    and tl: "list_all (\<lambda>r. status r = None \<or> status r = Some ''active'' \<or> status r = Some ''completed'') rs"
    by simp_all
  have "status r1 = None \<or> status r1 = Some ''active'' \<or> status r1 = Some ''completed''"
  proof (cases "todo_id r = i")
    case True
    with a have "assign_all True cs vs r = Inr r1" by simp
    from assign_all_status_strict [OF this hd] show ?thesis .
  next
    case False
    with a hd show ?thesis by simp
  qed
  with Cons.IH [OF b tl] c show ?case by simp
qed

lemma reachable_status_strict:
  "reachable d \<Longrightarrow>
   strict d \<longrightarrow>
   list_all (\<lambda>r. status r = None \<or> status r = Some ''active'' \<or> status r = Some ''completed'')
     (rows d)"
proof (induction rule: reachable.induct)
  case (init m)
  show ?case by (simp add: init_db_def)
next
  case (get d e)
  then show ?case by (simp add: get_store)
next
  case (post d e body)
  from post_store_cases [of e body d] post.IH show ?case by auto
next
  case (put d e i body)
  from put_todos_store_cases [of e i body d] show ?case
  proof
    assume "store (put_todos e i body d) = d"
    with put.IH show ?thesis by simp
  next
    assume "\<exists>rs'. update_rows (strict d) (fields_of body) (values_of body) i (rows d) = Inr rs' \<and>
      store (put_todos e i body d) = d\<lparr>rows := rs'\<rparr>"
    then obtain rs' where
      u: "update_rows (strict d) (fields_of body) (values_of body) i (rows d) = Inr rs'" and
      s: "store (put_todos e i body d) = d\<lparr>rows := rs'\<rparr>" by blast
    show ?thesis
    proof
      assume "strict (store (put_todos e i body d))"
      then have st: "strict d" by (simp add: s)
      with put.IH have ok: "list_all (\<lambda>r. status r = None \<or> status r = Some ''active'' \<or> status r = Some ''completed'') (rows d)"
        by simp
      from u st have "update_rows True (fields_of body) (values_of body) i (rows d) = Inr rs'" by simp
      from update_rows_status_strict [OF this ok] show
        "list_all (\<lambda>r. status r = None \<or> status r = Some ''active'' \<or> status r = Some ''completed'')
          (rows (store (put_todos e i body d)))" by (simp add: s)
    qed
  qed
next
  case (delete d e i)
  let ?P = "\<lambda>r. status r = None \<or> status r = Some ''active'' \<or> status r = Some ''completed''"
  from delete_store_cases [of e i d]
  have sub: "set (rows (store (delete_todos e i d))) \<subseteq> set (rows d)"
    and st: "strict (store (delete_todos e i d)) = strict d"
    by auto
  show ?case
  proof
    assume "strict (store (delete_todos e i d))"
    with st delete.IH have "list_all ?P (rows d)" by simp
    then have "\<forall>r\<in>set (rows d). ?P r" by (simp only: list_all_iff)
    with sub have "\<forall>r\<in>set (rows (store (delete_todos e i d))). ?P r" by blast
    then show "list_all ?P (rows (store (delete_todos e i d)))" by (simp only: list_all_iff)
  qed
qed

text \<open>A number that passes the presence test is stored as its numeral.\<close>

lemma post_number_as_task:
  "rows (store (post_todos env0 \<lparr>body_task = JNum (-120), body_status = JUndefined\<rparr>
      (init_db True))) =
   [\<lparr>todo_id = 1, task = ''-120'', status = Some ''active'', created_at = 1000\<rparr>]"
  by (simp add: post_todos_def env0_def init_db_def db_query_def exec_insert_def varchar255_def
      int_max_def Let_def decimal_def digits.simps digit_def)

section \<open>Creating a task\<close>

text \<open>
  Claim C4, as the code has it. On a database that the routes can reach and whose counter
  is below the end of the INT range, while the connection answers, a POST whose \<open>task\<close> is
  a string of 1 to 255 characters appends one row with that text, the status \<open>active\<close>,
  the counter's value as id and the database clock's current second as \<open>created_at\<close>; the
  id is greater than every id in the table. The response is 200 with that id, the text,
  \<open>active\<close>, and as \<open>created_at\<close> the Node clock's reading, which the handler takes with
  \<^verbatim>\<open>new Date()\<close> and does not read from the row.
\<close>

theorem post_inserts_active_row:
  assumes "reachable d" "auto_increment d < int_max" "conn_err e = None"
    "body_task body = JStr s" "s \<noteq> []" "length s \<le> 255"
  shows "post_todos e body d =
    \<lparr>response = Response 200 (TaskBody ''success''
        \<lparr>new_id = auto_increment d, new_task = JStr s, new_status = ''active'',
         new_created_at = js_clock e\<rparr>),
     store = d\<lparr>rows := rows d @
                 [\<lparr>todo_id = auto_increment d, task = s, status = Some ''active'',
                   created_at = db_clock e div 1000 * 1000\<rparr>],
               auto_increment := auto_increment d + 1\<rparr>,
     queries = [InsertTask (JStr s)]\<rparr>
   \<and> list_all (\<lambda>r. todo_id r < auto_increment d) (rows d)"
proof -
  from reachable_ids_ok [OF assms(1)] assms(2)
  have lt: "\<forall>k\<in>set (map todo_id (rows d)). k < auto_increment d"
    by (auto simp: ids_ok_def)
  then have fresh: "auto_increment d \<notin> set (map todo_id (rows d))" by blast
  from assms(2) have m: "min (auto_increment d + 1) int_max = auto_increment d + 1" by simp
  from fresh have "post_todos e body d =
    \<lparr>response = Response 200 (TaskBody ''success''
        \<lparr>new_id = auto_increment d, new_task = JStr s, new_status = ''active'',
         new_created_at = js_clock e\<rparr>),
     store = d\<lparr>rows := rows d @
                 [\<lparr>todo_id = auto_increment d, task = s, status = Some ''active'',
                   created_at = db_clock e div 1000 * 1000\<rparr>],
               auto_increment := auto_increment d + 1\<rparr>,
     queries = [InsertTask (JStr s)]\<rparr>"
    using assms(3-6) m
    by (simp add: post_todos_def db_query_def exec_insert_def varchar255_def Let_def)
  with lt show ?thesis by (simp add: list_all_iff)
qed

theorem post_inserts_active_row_witness:
  "reachable db1 \<and> auto_increment db1 < int_max \<and> conn_err env0 = None \<and>
   body_task milk = JStr ''Buy milk'' \<and> ''Buy milk'' \<noteq> [] \<and> length ''Buy milk'' \<le> 255 \<and>
   post_todos env0 milk db1 =
    \<lparr>response = Response 200 (TaskBody ''success''
        \<lparr>new_id = 2, new_task = JStr ''Buy milk'', new_status = ''active'',
         new_created_at = 1503\<rparr>),
     store = \<lparr>rows = [milk_row,
                      \<lparr>todo_id = 2, task = ''Buy milk'', status = Some ''active'',
                        created_at = 1000\<rparr>],
              auto_increment = 3, strict = True\<rparr>,
     queries = [InsertTask (JStr ''Buy milk'')]\<rparr>"
proof -
  have a: "auto_increment db1 < int_max" by (simp add: db1_def int_max_def)
  have b: "conn_err env0 = None" by (simp add: env0_def)
  have c: "body_task milk = JStr ''Buy milk''" by (simp add: milk_def)
  have d: "''Buy milk'' \<noteq> []" by simp
  have f: "length ''Buy milk'' \<le> 255" by simp
  from post_inserts_active_row [OF reachable_db1 a b c d f] reachable_db1 a b c
  show ?thesis by (simp add: db1_def env0_def)
qed

text \<open>
  The claim as stated fails twice. The \<open>created_at\<close> of the response (1503) is not the
  one of the row (1000); and in strict mode a text of 256 characters is refused by the
  engine, so that no row is inserted.
\<close>

theorem post_returns_own_clock_and_refuses_long_text:
  "post_todos env0 milk (init_db True) =
    \<lparr>response = Response 200 (TaskBody ''success''
        \<lparr>new_id = 1, new_task = JStr ''Buy milk'', new_status = ''active'',
         new_created_at = 1503\<rparr>),
     store = \<lparr>rows = [\<lparr>todo_id = 1, task = ''Buy milk'', status = Some ''active'',
                       created_at = 1000\<rparr>],
              auto_increment = 2, strict = True\<rparr>,
     queries = [InsertTask (JStr ''Buy milk'')]\<rparr>
   \<and> post_todos env0 \<lparr>body_task = JStr (replicate 256 CHR ''a''), body_status = JUndefined\<rparr>
        (init_db True) =
    \<lparr>response = Response 400 (ErrorBody ''Data too long for column 'task' at row 1''),
     store = init_db True, queries = [InsertTask (JStr (replicate 256 CHR ''a''))]\<rparr>"
  by (simp add: post_todos_def milk_def env0_def init_db_def db_query_def exec_insert_def
      varchar255_def int_max_def Let_def list_all_iff)

section \<open>Toggling the status\<close>

lemma update_rows_status:
  "s = ''active'' \<or> s = ''completed'' \<Longrightarrow>
   update_rows strct [StatusCol] [JStr s] i rs =
     Inr (map (\<lambda>x. if todo_id x = i then x\<lparr>status := Some s\<rparr> else x) rs)"
  by (induction rs) (auto simp: enum_status_def)

lemma toggle_store:
  assumes "conn_err e = None"
  shows "store (toggleStatus e i cur d) =
    d\<lparr>rows := map (\<lambda>x. if todo_id x = i
                         then x\<lparr>status :=
                                  Some (if cur = JStr ''active'' then ''completed''
                                        else ''active'')\<rparr>
                         else x) (rows d)\<rparr>"
  using assms
  by (simp add: toggleStatus_def updateTodoStatus_def put_todos_def db_query_def exec_update_def
      update_rows_status Let_def)

text \<open>
  Claim C9. Take a row of a reachable table whose status is \<open>active\<close> or \<open>completed\<close>, and
  let the connection answer both requests. Clicking the row's status button changes the
  table: the row now has the other status. Clicking the button of the row so rendered
  gives back the database from before the first click.
\<close>

theorem toggle_twice_restores:
  assumes "reachable d" "r \<in> set (rows d)" "status r = Some s"
    "s = ''active'' \<or> s = ''completed''" "conn_err e1 = None" "conn_err e2 = None"
  shows "r\<lparr>status := Some (if s = ''active'' then ''completed'' else ''active'')\<rparr>
           \<in> set (rows (store (statusBtn_onclick e1 r d))) \<and>
         store (statusBtn_onclick e1 r d) \<noteq> d \<and>
         store (statusBtn_onclick e2
                  (r\<lparr>status := Some (if s = ''active'' then ''completed'' else ''active'')\<rparr>)
                  (store (statusBtn_onclick e1 r d))) = d"
proof -
  let ?t = "if s = ''active'' then ''completed'' else ''active''"
  let ?f = "\<lambda>x. if todo_id x = todo_id r then x\<lparr>status := Some ?t\<rparr> else x"
  let ?g = "\<lambda>x. if todo_id x = todo_id r then x\<lparr>status := Some s\<rparr> else x"
  have dist: "distinct (map todo_id (rows d))"
    using reachable_ids_ok [OF assms(1)] by (simp add: ids_ok_def)
  have d1: "store (statusBtn_onclick e1 r d) = d\<lparr>rows := map ?f (rows d)\<rparr>"
    using assms(3,4)
    by (auto simp: statusBtn_onclick_def status_json_def toggle_store [OF assms(5)])
  have d2: "store (statusBtn_onclick e2 (r\<lparr>status := Some ?t\<rparr>)
                (d\<lparr>rows := map ?f (rows d)\<rparr>)) =
      d\<lparr>rows := map ?g (map ?f (rows d))\<rparr>"
    using assms(4)
    by (auto simp: statusBtn_onclick_def status_json_def toggle_store [OF assms(6)])
  have undo: "map ?g (map ?f (rows d)) = rows d"
  proof -
    have "?g (?f x) = x" if "x \<in> set (rows d)" for x
    proof (cases "todo_id x = todo_id r")
      case True
      with same_id_same_row [OF dist assms(2) that] have "x = r" by simp
      with assms(3) show ?thesis by simp
    next
      case False
      then show ?thesis by simp
    qed
    then have "map (\<lambda>x. ?g (?f x)) (rows d) = rows d" by (simp add: map_idI)
    then show ?thesis by (simp add: comp_def)
  qed
  have mem: "r\<lparr>status := Some ?t\<rparr> \<in> set (rows (d\<lparr>rows := map ?f (rows d)\<rparr>))"
    using assms(2) by (auto simp: image_iff intro!: bexI [of _ r])
  have ne: "d\<lparr>rows := map ?f (rows d)\<rparr> \<noteq> d"
  proof
    assume "d\<lparr>rows := map ?f (rows d)\<rparr> = d"
    then have "rows (d\<lparr>rows := map ?f (rows d)\<rparr>) = rows d" by simp
    with mem have "r\<lparr>status := Some ?t\<rparr> \<in> set (rows d)" by simp
    from same_id_same_row [OF dist assms(2) this] have "r\<lparr>status := Some ?t\<rparr> = r" by simp
    then have "status (r\<lparr>status := Some ?t\<rparr>) = status r" by simp
    with assms(3,4) show False by auto
  qed
  have "store (statusBtn_onclick e2 (r\<lparr>status := Some ?t\<rparr>)
          (store (statusBtn_onclick e1 r d))) = d\<lparr>rows := rows d\<rparr>"
    by (simp only: d1 d2 undo)
  then have fin: "store (statusBtn_onclick e2 (r\<lparr>status := Some ?t\<rparr>)
          (store (statusBtn_onclick e1 r d))) = d"
    by simp
  from mem have mem': "r\<lparr>status := Some ?t\<rparr> \<in> set (rows (store (statusBtn_onclick e1 r d)))"
    unfolding d1 .
  from ne have ne': "store (statusBtn_onclick e1 r d) \<noteq> d"
    unfolding d1 .
  from mem' ne' fin show ?thesis by blast
qed

theorem toggle_twice_restores_witness:
  "reachable db1 \<and> milk_row \<in> set (rows db1) \<and> status milk_row = Some ''active'' \<and>
   conn_err env0 = None \<and>
   store (statusBtn_onclick env0 milk_row db1) \<noteq> db1 \<and>
   store (statusBtn_onclick env0 (milk_row\<lparr>status := Some ''completed''\<rparr>)
            (store (statusBtn_onclick env0 milk_row db1))) = db1"
proof -
  have a: "milk_row \<in> set (rows db1)" by (simp add: db1_def)
  have b: "status milk_row = Some ''active''" by (simp add: milk_row_def)
  have c: "''active'' = ''active'' \<or> ''active'' = ''completed''" by simp
  have e: "conn_err env0 = None" by (simp add: env0_def)
  from toggle_twice_restores [OF reachable_db1 a b c e e] reachable_db1 a b e
  show ?thesis by simp
qed

end
